theory Spec2Isabelle
  imports Complex_Main
begin

section \<open>Python values\<close>

text \<open>
  The pipeline state, the stage updates and every decoded JSON document are Python
  dictionaries holding dynamically typed values.  One datatype covers them: \<open>PNone\<close> is
  \<^verbatim>\<open>None\<close> (JSON \<^verbatim>\<open>null\<close>), a dictionary is an association list in insertion order
  with string keys.  A string is a list of characters, one per code point; the
  characters are the code points below 256.
\<close>

datatype pyval =
    PNone
  | PBool bool
  | PInt int
  | PFloat real
  | PStr string
  | PList "pyval list"
  | PDict "(string \<times> pyval) list"

datatype exn_class =
    Exception | ValueError | TypeError | AttributeError | JSONDecodeError
  | UnboundLocalError | OSError

text \<open>An exception is its class together with the text \<^verbatim>\<open>str(e)\<close> yields.\<close>

datatype exn = Exn exn_class string

fun exn_class_of :: "exn \<Rightarrow> exn_class" where
  "exn_class_of (Exn c m) = c"

fun str_exn :: "exn \<Rightarrow> string" where
  "str_exn (Exn c m) = m"

fun type_name :: "pyval \<Rightarrow> string" where
  "type_name PNone = ''NoneType''"
| "type_name (PBool b) = ''bool''"
| "type_name (PInt n) = ''int''"
| "type_name (PFloat r) = ''float''"
| "type_name (PStr s) = ''str''"
| "type_name (PList xs) = ''list''"
| "type_name (PDict kvs) = ''dict''"

text \<open>Truth value testing, as \<^verbatim>\<open>not x\<close> and \<^verbatim>\<open>if x\<close> use it.\<close>

fun truthy :: "pyval \<Rightarrow> bool" where
  "truthy PNone = False"
| "truthy (PBool b) = b"
| "truthy (PInt n) = (n \<noteq> 0)"
| "truthy (PFloat r) = (r \<noteq> 0)"
| "truthy (PStr s) = (s \<noteq> [])"
| "truthy (PList xs) = (xs \<noteq> [])"
| "truthy (PDict kvs) = (kvs \<noteq> [])"

definition sq :: string where
  "sq = [CHR 0x27]"

text \<open>
  Sequencing of fallible steps: the first exception ends the computation, as a raised
  exception leaves a Python function body.
\<close>

fun and_then :: "exn + 'a \<Rightarrow> ('a \<Rightarrow> exn + 'b) \<Rightarrow> exn + 'b" where
  "and_then (Inl e) f = Inl e"
| "and_then (Inr v) f = f v"

text \<open>\<^verbatim>\<open>d.get(k, default)\<close>: only a dictionary has the method.\<close>

fun py_get :: "pyval \<Rightarrow> string \<Rightarrow> pyval \<Rightarrow> exn + pyval" where
  "py_get (PDict kvs) k dflt = Inr (case map_of kvs k of None \<Rightarrow> dflt | Some v \<Rightarrow> v)"
| "py_get v k dflt =
     Inl (Exn AttributeError (sq @ type_name v @ sq @ '' object has no attribute '' @ sq @ ''get'' @ sq))"

text \<open>What a \<^verbatim>\<open>for\<close> loop iterates over.\<close>

fun py_iter :: "pyval \<Rightarrow> exn + pyval list" where
  "py_iter (PList xs) = Inr xs"
| "py_iter (PStr s) = Inr (map (\<lambda>c. PStr [c]) s)"
| "py_iter (PDict kvs) = Inr (map (\<lambda>kv. PStr (fst kv)) kvs)"
| "py_iter v = Inl (Exn TypeError (sq @ type_name v @ sq @ '' object is not iterable''))"

text \<open>The slice \<^verbatim>\<open>v[:n]\<close>.\<close>

fun py_slice_to :: "nat \<Rightarrow> pyval \<Rightarrow> exn + pyval" where
  "py_slice_to n (PStr s) = Inr (PStr (take n s))"
| "py_slice_to n (PList xs) = Inr (PList (take n xs))"
| "py_slice_to n (PDict kvs) = Inl (Exn TypeError (''unhashable type: '' @ sq @ ''slice'' @ sq))"
| "py_slice_to n v = Inl (Exn TypeError (sq @ type_name v @ sq @ '' object is not subscriptable''))"

fun show_nat :: "nat \<Rightarrow> string" where
  "show_nat n =
     (if n < 10 then [char_of (48 + n)] else show_nat (n div 10) @ [char_of (48 + n mod 10)])"

text \<open>\<^verbatim>\<open>sep.join(items)\<close>: every item has to be a string.\<close>

fun join_strs :: "string \<Rightarrow> string list \<Rightarrow> string" where
  "join_strs sep [] = []"
| "join_strs sep [s] = s"
| "join_strs sep (s # t # ss) = s @ sep @ join_strs sep (t # ss)"

fun str_items :: "nat \<Rightarrow> pyval list \<Rightarrow> exn + string list" where
  "str_items i [] = Inr []"
| "str_items i (PStr s # vs) = and_then (str_items (Suc i) vs) (\<lambda>ss. Inr (s # ss))"
| "str_items i (v # vs) =
     Inl (Exn TypeError (''sequence item '' @ show_nat i @ '': expected str instance, ''
            @ type_name v @ '' found''))"

definition str_join :: "string \<Rightarrow> pyval \<Rightarrow> exn + string" where
  "str_join sep v =
     and_then (py_iter v) (\<lambda>items.
     and_then (str_items 0 items) (\<lambda>ss. Inr (join_strs sep ss)))"

text \<open>
  Dictionary keys: lists and dictionaries are unhashable; numbers (booleans included)
  are the same key when they are equal as numbers, anything else when it is the same value.
\<close>

fun hashable :: "pyval \<Rightarrow> bool" where
  "hashable (PList xs) = False"
| "hashable (PDict kvs) = False"
| "hashable v = True"

fun py_num :: "pyval \<Rightarrow> real option" where
  "py_num (PBool b) = Some (if b then 1 else 0)"
| "py_num (PInt n) = Some (of_int n)"
| "py_num (PFloat r) = Some r"
| "py_num v = None"

definition key_eq :: "pyval \<Rightarrow> pyval \<Rightarrow> bool" where
  "key_eq a b = (case (py_num a, py_num b) of (Some x, Some y) \<Rightarrow> x = y | _ \<Rightarrow> a = b)"

text \<open>
  \<^verbatim>\<open>list(dict.fromkeys(lines))\<close>: the keys are inserted one by one, a key that is already
  there keeps its place, so the result lists each key where it first occurred.
\<close>

fun dict_fromkeys :: "pyval list \<Rightarrow> pyval list \<Rightarrow> exn + pyval list" where
  "dict_fromkeys [] keys = Inr keys"
| "dict_fromkeys (x # xs) keys =
     (if \<not> hashable x then Inl (Exn TypeError (''unhashable type: '' @ sq @ type_name x @ sq))
      else dict_fromkeys xs (if list_ex (key_eq x) keys then keys else keys @ [x]))"

text \<open>The operand test \<^verbatim>\<open>needle in v\<close> for a string needle.\<close>

fun str_contains :: "string \<Rightarrow> string \<Rightarrow> bool" where
  "str_contains needle [] = (needle = [])"
| "str_contains needle (c # cs) =
     (take (length needle) (c # cs) = needle \<or> str_contains needle cs)"

fun py_contains :: "string \<Rightarrow> pyval \<Rightarrow> exn + bool" where
  "py_contains needle (PStr s) = Inr (str_contains needle s)"
| "py_contains needle (PList xs) = Inr (PStr needle \<in> set xs)"
| "py_contains needle (PDict kvs) = Inr (needle \<in> fst ` set kvs)"
| "py_contains needle v =
     Inl (Exn TypeError (''argument of type '' @ sq @ type_name v @ sq @ '' is not iterable''))"






section \<open>Effects\<close>

text \<open>
  What a function does besides returning: the calls it makes to the services outside the
  program (credential provider, resource manager, video indexer, downloader, file system,
  search index, chat model), the waits, and the log records.  The world records these
  events in the order they happen, and whether the local media file
  \<^verbatim>\<open>temp_audit_video.mp4\<close> exists.  The answers of the outside services are inputs of
  the model.
\<close>

datatype log_level = INFO | WARNING | ERROR

datatype event =
    Log log_level
  | Sleep nat
  | CreateService
  | Download
  | GetToken
  | PostGenerateAccessToken
  | OpenFile
  | PostVideo
  | RemoveFile
  | GetIndex
  | CreateClients
  | SimilaritySearch
  | InvokeModel

record world =
  trace :: "event list"
  file_exists :: bool

text \<open>
  \<open>Pending\<close> is the outcome of a loop that the answers supplied so far have not ended:
  the function has neither returned nor raised.
\<close>

datatype 'a outcome = Returns 'a | Raises exn | Pending

type_synonym 'a io = "world \<Rightarrow> 'a outcome \<times> world"

definition return_io :: "'a \<Rightarrow> 'a io" where
  "return_io v w = (Returns v, w)"

definition raise_exn :: "exn \<Rightarrow> 'a io" where
  "raise_exn e w = (Raises e, w)"

definition bind_io :: "'a io \<Rightarrow> ('a \<Rightarrow> 'b io) \<Rightarrow> 'b io" where
  "bind_io m f w =
     (case m w of
        (Returns v, w') \<Rightarrow> f v w'
      | (Raises e, w') \<Rightarrow> (Raises e, w')
      | (Pending, w') \<Rightarrow> (Pending, w'))"

text \<open>\<^verbatim>\<open>try: m except Exception as e: h(e)\<close>\<close>

definition catch_io :: "'a io \<Rightarrow> (exn \<Rightarrow> 'a io) \<Rightarrow> 'a io" where
  "catch_io m h w =
     (case m w of
        (Raises e, w') \<Rightarrow> h e w'
      | (r, w') \<Rightarrow> (r, w'))"

definition emit :: "event \<Rightarrow> unit io" where
  "emit ev w = (Returns (), w\<lparr>trace := trace w @ [ev]\<rparr>)"

definition skip :: "unit io" where
  "skip = return_io ()"

definition lift :: "exn + 'a \<Rightarrow> 'a io" where
  "lift r = (case r of Inl e \<Rightarrow> raise_exn e | Inr v \<Rightarrow> return_io v)"

text \<open>An outside call: the event, then the answer the service gave.\<close>

definition call :: "event \<Rightarrow> exn + 'a \<Rightarrow> 'a io" where
  "call ev answer = bind_io (emit ev) (\<lambda>_. lift answer)"

section \<open>The audit state\<close>

text \<open>The keys of \<^verbatim>\<open>VideoAuditState\<close>, in the order of their declaration.\<close>

datatype field =
    F_video_url | F_video_id | F_region
  | F_local_file_path | F_video_metadata | F_transcript | F_ocr_text | F_detected_brands
  | F_compliance_results
  | F_final_status | F_final_report
  | F_errors

type_synonym state = "field \<Rightarrow> pyval option"

text \<open>A partial update, as a stage returns it: a dictionary literal.\<close>

type_synonym update = "(field \<times> pyval) list"

text \<open>\<^verbatim>\<open>state.get(key, default)\<close>; with no default the default is \<^verbatim>\<open>None\<close>.\<close>

definition state_get :: "state \<Rightarrow> field \<Rightarrow> pyval \<Rightarrow> pyval" where
  "state_get s k dflt = (case s k of None \<Rightarrow> dflt | Some v \<Rightarrow> v)"

section \<open>The video indexer service: extraction\<close>

text \<open>
  One loop of \<^verbatim>\<open>process_block\<close>: an item whose field is truthy contributes that field's
  value to the list collected so far.
\<close>

fun collect :: "string \<Rightarrow> pyval list \<Rightarrow> pyval list \<Rightarrow> exn + pyval list" where
  "collect k [] acc = Inr acc"
| "collect k (item # items) acc =
     and_then (py_get item k PNone) (\<lambda>v.
       collect k items (if truthy v then acc @ [v] else acc))"

definition collect_from :: "pyval \<Rightarrow> string \<Rightarrow> string \<Rightarrow> pyval list \<Rightarrow> exn + pyval list" where
  "collect_from insights coll k acc =
     and_then (py_get insights coll (PList [])) (\<lambda>v.
     and_then (py_iter v) (\<lambda>items. collect k items acc))"

type_synonym lines = "pyval list \<times> pyval list \<times> pyval list"

fun process_block :: "pyval \<Rightarrow> lines \<Rightarrow> exn + lines" where
  "process_block insights (transcripts_lines, ocr_lines, brands_found) =
     and_then (collect_from insights ''transcript'' ''text'' transcripts_lines) (\<lambda>tl.
     and_then (collect_from insights ''ocr'' ''text'' ocr_lines) (\<lambda>ol.
     and_then (collect_from insights ''brands'' ''name'' brands_found) (\<lambda>bf.
       Inr (tl, ol, bf))))"

text \<open>\<^verbatim>\<open>process_block(v.get("insights", {}))\<close>\<close>

definition process_insights :: "pyval \<Rightarrow> lines \<Rightarrow> exn + lines" where
  "process_insights v acc =
     and_then (py_get v ''insights'' (PDict [])) (\<lambda>insights. process_block insights acc)"

fun process_videos :: "pyval list \<Rightarrow> lines \<Rightarrow> exn + lines" where
  "process_videos [] acc = Inr acc"
| "process_videos (v # vs) acc =
     and_then (process_insights v acc) (\<lambda>acc'. process_videos vs acc')"

definition extract_data :: "pyval \<Rightarrow> update io" where
  "extract_data vi_json =
     bind_io (lift (process_insights vi_json ([], [], []))) (\<lambda>acc.
     bind_io (lift (py_get vi_json ''videos'' PNone)) (\<lambda>videos.
     bind_io (if \<not> truthy videos then emit (Log WARNING) else skip) (\<lambda>_.
     lift (
       and_then (py_get vi_json ''videos'' (PList [])) (\<lambda>videos.
       and_then (py_iter videos) (\<lambda>vs.
       and_then (process_videos vs acc) (\<lambda>(transcripts_lines, ocr_lines, brands_found).
       and_then (dict_fromkeys transcripts_lines []) (\<lambda>tkeys.
       and_then (str_join '' '' (PList tkeys)) (\<lambda>transcript.
       and_then (dict_fromkeys ocr_lines []) (\<lambda>okeys.
       and_then (dict_fromkeys brands_found []) (\<lambda>bkeys.
       and_then (py_get vi_json ''summarizedInsights'' (PDict [])) (\<lambda>summarized.
       and_then (py_get summarized ''durationText'' PNone) (\<lambda>duration.
       and_then (py_get vi_json ''id'' PNone) (\<lambda>vid.
         Inr [(F_transcript, PStr transcript),
              (F_ocr_text, PList okeys),
              (F_detected_brands, PList bkeys),
              (F_video_metadata,
                 PDict [(''duration'', duration), (''platform'', PStr ''youtube''),
                        (''id'', vid)])]))))))))))))))"

section \<open>The video indexer service: tokens, download, upload, polling\<close>

record response =
  status_code :: int
  resp_text :: string
  resp_json :: "exn + pyval"

text \<open>
  \<^verbatim>\<open>get_access_token\<close>: the credential provider's answer is the token or an exception;
  the exception is logged and raised again.
\<close>

definition get_access_token :: "exn + string \<Rightarrow> string io" where
  "get_access_token get_token =
     catch_io (call GetToken get_token)
       (\<lambda>e. bind_io (emit (Log ERROR)) (\<lambda>_. raise_exn e))"

definition get_account_token :: "exn + response \<Rightarrow> pyval io" where
  "get_account_token post =
     bind_io (call PostGenerateAccessToken post) (\<lambda>response.
       if status_code response \<noteq> 200
       then raise_exn (Exn Exception
              (''Failed to get VI account access tokenn : response: '' @ resp_text response))
       else lift (and_then (resp_json response) (\<lambda>body. py_get body ''accessToken'' PNone)))"

text \<open>A successful download leaves the file at the output path.\<close>

definition download_youtube_video :: "exn + unit \<Rightarrow> unit io" where
  "download_youtube_video download =
     bind_io (emit (Log INFO)) (\<lambda>_.
     catch_io
       (bind_io (call Download download) (\<lambda>_.
        bind_io (\<lambda>w. (Returns (), w\<lparr>file_exists := True\<rparr>)) (\<lambda>_.
        emit (Log INFO))))
       (\<lambda>e. bind_io (emit (Log ERROR)) (\<lambda>_. raise_exn e)))"

text \<open>\<^verbatim>\<open>open(video_path, "rb")\<close> fails when there is no file at the path.\<close>

definition open_file :: "unit io" where
  "open_file =
     bind_io (emit OpenFile) (\<lambda>_ w.
       if file_exists w then (Returns (), w)
       else (Raises (Exn OSError (''[Errno 2] No such file or directory: '' @ sq
                       @ ''temp_audit_video.mp4'' @ sq)), w))"

definition upload_video :: "exn + string \<Rightarrow> exn + response \<Rightarrow> exn + response \<Rightarrow> pyval io" where
  "upload_video get_token post_token post_video =
     bind_io (get_access_token get_token) (\<lambda>arm_token.
     bind_io (get_account_token post_token) (\<lambda>vi_token.
     bind_io (emit (Log INFO)) (\<lambda>_.
     bind_io open_file (\<lambda>_.
     bind_io (call PostVideo post_video) (\<lambda>response.
       if status_code response \<noteq> 200
       then raise_exn (Exn Exception
              (''Failed to upload video on Azure Video Indexer : '' @ resp_text response))
       else lift (and_then (resp_json response) (\<lambda>body. py_get body ''id'' PNone)))))))"

text \<open>
  One pass of the polling loop asks the three services in turn; \<open>check\<close> holds their
  answers for that pass.
\<close>

record check =
  chk_token :: "exn + string"
  chk_account :: "exn + response"
  chk_index :: "exn + response"

definition failed_msg :: "string \<Rightarrow> string" where
  "failed_msg video_id =
     ''Video processing failed in Azure Video Indexer for video ID: '' @ video_id"

definition quarantined_msg :: string where
  "quarantined_msg =
     ''Video is quarantined in Azure Video Indexer (Copyright/Content Policy Violation)''"

text \<open>
  The body of \<^verbatim>\<open>while True\<close>, one pass per element of the list of answers.  When the
  answers run out the loop is still running: \<open>Pending\<close>.
\<close>

fun poll :: "string \<Rightarrow> check list \<Rightarrow> pyval io" where
  "poll video_id [] = (\<lambda>w. (Pending, w))"
| "poll video_id (c # cs) =
     bind_io (get_access_token (chk_token c)) (\<lambda>arm_token.
     bind_io (get_account_token (chk_account c)) (\<lambda>vi_token.
     bind_io (call GetIndex (chk_index c)) (\<lambda>response.
       if status_code response \<noteq> 200
       then bind_io (emit (Log ERROR)) (\<lambda>_.
            bind_io (emit (Sleep 30)) (\<lambda>_. poll video_id cs))
       else
         bind_io (lift (resp_json response)) (\<lambda>data.
         bind_io (lift (py_get data ''state'' PNone)) (\<lambda>state.
           if state = PStr ''Processed''
           then bind_io (emit (Log INFO)) (\<lambda>_. return_io data)
           else if state = PStr ''Failed''
           then raise_exn (Exn Exception (failed_msg video_id))
           else if state = PStr ''Quarantined''
           then raise_exn (Exn Exception quarantined_msg)
           else bind_io (emit (Log INFO)) (\<lambda>_.
                bind_io (emit (Sleep 30)) (\<lambda>_. poll video_id cs)))))))"

definition wait_for_processing :: "string \<Rightarrow> check list \<Rightarrow> pyval io" where
  "wait_for_processing video_id checks =
     bind_io (emit (Log INFO)) (\<lambda>_. poll video_id checks)"

section \<open>The answers of the outside world\<close>

text \<open>
  Everything the two stages obtain from outside the program during one run.
  \<open>py_str\<close> is Python's \<^verbatim>\<open>str()\<close>, as the f-strings apply it to a value, and
  \<open>json_loads\<close> is \<^verbatim>\<open>json.loads\<close>; both belong to the Python library and are taken
  as they are.
\<close>

record env =
  service_init :: "exn + unit"
  download :: "exn + unit"
  upload_token :: "exn + string"
  upload_account :: "exn + response"
  upload_post :: "exn + response"
  remove :: "exn + unit"
  checks :: "check list"
  clients_init :: "exn + unit"
  search :: "exn + string list"
  invoke :: "exn + string"
  py_str :: "pyval \<Rightarrow> string"
  json_loads :: "string \<Rightarrow> exn + pyval"

section \<open>Stage 1: indexing\<close>

definition unsupported_msg :: string where
  "unsupported_msg = ''Unsupported video URL. Only YouTube URLs are supported in this''"

text \<open>\<^verbatim>\<open>if os.path.exists(local_path): os.remove(local_path)\<close>\<close>

definition cleanup_local_file :: "exn + unit \<Rightarrow> unit io" where
  "cleanup_local_file rm =
     (\<lambda>w. if file_exists w
          then bind_io (call RemoveFile rm)
                 (\<lambda>_ w'. (Returns (), w'\<lparr>file_exists := False\<rparr>)) w
          else (Returns (), w))"

definition index_failure :: "exn \<Rightarrow> update" where
  "index_failure e =
     [(F_errors, PList [PStr (str_exn e)]),
      (F_final_status, PStr ''FAIL''),
      (F_transcript, PStr []),
      (F_ocr_text, PList [])]"

definition index_video_node :: "env \<Rightarrow> state \<Rightarrow> update io" where
  "index_video_node env state =
     (let video_url = state_get state F_video_url PNone;
          video_id_input = state_get state F_video_id (PStr ''vid_demo'')
      in
      bind_io (emit (Log INFO)) (\<lambda>_.
      catch_io
        (bind_io (call CreateService (service_init env)) (\<lambda>vi_service.
         bind_io (lift (py_contains ''youtube.com'' video_url)) (\<lambda>in_youtube.
         bind_io (if in_youtube then return_io True
                  else lift (py_contains ''youtu.be'' video_url)) (\<lambda>supported.
         bind_io (if supported then download_youtube_video (download env)
                  else raise_exn (Exn ValueError unsupported_msg)) (\<lambda>local_path.
         bind_io (upload_video (upload_token env) (upload_account env) (upload_post env))
           (\<lambda>azure_video_id.
         bind_io (emit (Log INFO)) (\<lambda>_.
         bind_io (cleanup_local_file (remove env)) (\<lambda>_.
         bind_io (wait_for_processing (py_str env azure_video_id) (checks env))
           (\<lambda>raw_insights.
         bind_io (extract_data raw_insights) (\<lambda>clean_data.
         bind_io (emit (Log INFO)) (\<lambda>_.
         return_io clean_data)))))))))))
        (\<lambda>e. bind_io (emit (Log ERROR)) (\<lambda>_. return_io (index_failure e)))))"

section \<open>Stage 2: compliance audit\<close>

text \<open>
  White space as \<^verbatim>\<open>\s\<close> and \<^verbatim>\<open>str.strip()\<close> see it, among the code points below
  256: tab, line feed, vertical tab, form feed, carriage return, the four separators
  \<^verbatim>\<open>\x1c\<close> to \<^verbatim>\<open>\x1f\<close>, the space, the next-line character \<^verbatim>\<open>\x85\<close> and the
  no-break space \<^verbatim>\<open>\xa0\<close>.
\<close>

definition is_space :: "char \<Rightarrow> bool" where
  "is_space c =
     (let n = (of_char c :: nat)
      in (9 \<le> n \<and> n \<le> 13) \<or> (28 \<le> n \<and> n \<le> 32) \<or> n = 133 \<or> n = 160)"

definition strip :: "string \<Rightarrow> string" where
  "strip s = rev (dropWhile is_space (rev (dropWhile is_space s)))"

definition fence :: string where
  "fence = [CHR 0x60, CHR 0x60, CHR 0x60]"

text \<open>The text after the first fence, and the text before the first fence.\<close>

fun after_fence :: "string \<Rightarrow> string option" where
  "after_fence [] = None"
| "after_fence (c # cs) =
     (if take 3 (c # cs) = fence then Some (drop 3 (c # cs)) else after_fence cs)"

fun before_fence :: "string \<Rightarrow> string option" where
  "before_fence [] = None"
| "before_fence (c # cs) =
     (if take 3 (c # cs) = fence then Some []
      else map_option ((#) c) (before_fence cs))"

text \<open>
  \<^verbatim>\<open>re.search(r"```(?:json)?\s*(.*?)```", content, re.DOTALL)\<close>, group 1: after the
  first fence an optional \<^verbatim>\<open>json\<close> and any white space are passed over, and the group is
  the text up to the next fence.  Neither \<^verbatim>\<open>json\<close> nor white space holds a backquote, so
  giving either back finds no fence that the first attempt missed, and a later start
  has no closing fence unless the first start has one.
\<close>

definition json_match :: "string \<Rightarrow> string option" where
  "json_match content =
     (case after_fence content of
        None \<Rightarrow> None
      | Some rest \<Rightarrow>
          before_fence
            (dropWhile is_space (if take 4 rest = ''json'' then drop 4 rest else rest)))"

definition no_content_report :: string where
  "no_content_report =
     ''Audit failed: No speech or text content could be extracted from this video.''"

definition parse_error_msg :: string where
  "parse_error_msg = ''Failed to parse AI response. Check logs for raw output.''"

text \<open>
  Steps 1 and 2 of the extraction: the inside of the fenced block if there is one, else
  the whole answer; stripped of surrounding white space.
\<close>

definition json_text :: "string \<Rightarrow> string" where
  "json_text response_content =
     strip (case json_match response_content of
              Some group1 \<Rightarrow> group1
            | None \<Rightarrow> response_content)"

text \<open>The part of the \<^verbatim>\<open>try\<close> block after the model has answered.\<close>

definition read_verdict :: "env \<Rightarrow> string \<Rightarrow> exn + update" where
  "read_verdict env response_content =
     and_then (json_loads env (json_text response_content)) (\<lambda>audit_data.
     and_then (py_get audit_data ''compliance_results'' (PList [])) (\<lambda>compliance_results.
     and_then (py_get audit_data ''status'' (PStr ''FAIL'')) (\<lambda>final_status.
     and_then (py_get audit_data ''final_report'' (PStr ''No Report Generated.''))
       (\<lambda>final_report.
       Inr [(F_compliance_results, compliance_results),
            (F_final_status, final_status),
            (F_final_report, final_report)]))))"

text \<open>
  The two \<^verbatim>\<open>except\<close> clauses.  \<open>response\<close> is the model's answer if the call returned.
  The handler of \<^verbatim>\<open>JSONDecodeError\<close> reads \<^verbatim>\<open>response.content\<close>, a name that is not
  bound when the call itself raised.
\<close>

definition audit_except :: "string option \<Rightarrow> exn \<Rightarrow> update io" where
  "audit_except response e =
     (if exn_class_of e = JSONDecodeError
      then bind_io (emit (Log ERROR)) (\<lambda>_.
             case response of
               None \<Rightarrow>
                 raise_exn (Exn UnboundLocalError
                   (''cannot access local variable '' @ sq @ ''response'' @ sq
                     @ '' where it is not associated with a value''))
             | Some response_content \<Rightarrow>
                 bind_io (emit (Log ERROR)) (\<lambda>_.
                 return_io
                   [(F_errors, PList [PStr parse_error_msg]),
                    (F_final_status, PStr ''FAIL''),
                    (F_final_report,
                       PStr (''AI Parsing Error. Raw output start: ''
                             @ take 100 response_content @ ''...''))]))
      else bind_io (emit (Log ERROR)) (\<lambda>_.
             return_io [(F_errors, PList [PStr (str_exn e)]),
                        (F_final_status, PStr ''FAIL'')]))"

definition compliance_audit_node :: "env \<Rightarrow> state \<Rightarrow> update io" where
  "compliance_audit_node env state =
     (let region = state_get state F_region (PStr ''Global'') in
      bind_io (emit (Log INFO)) (\<lambda>_.
      let transcript = state_get state F_transcript (PStr []);
          ocr_text = state_get state F_ocr_text (PList []);
          detected_brands = state_get state F_detected_brands (PList [])
      in
      if \<not> truthy transcript \<and> \<not> truthy ocr_text
      then bind_io (emit (Log WARNING)) (\<lambda>_.
           return_io [(F_final_status, PStr ''FAIL''),
                      (F_final_report, PStr no_content_report)])
      else
        bind_io (call CreateClients (clients_init env)) (\<lambda>_.
        bind_io (lift (py_slice_to 500 transcript)) (\<lambda>transcript_500.
        bind_io (lift (and_then (py_slice_to 200 ocr_text) (str_join '' ''))) (\<lambda>ocr_200.
        bind_io (call SimilaritySearch (search env)) (\<lambda>docs.
        catch_io
          (bind_io (call InvokeModel (invoke env)) (\<lambda>response_content.
             catch_io (lift (read_verdict env response_content))
               (audit_except (Some response_content))))
          (audit_except None)))))))"

section \<open>The state accumulator and the graph\<close>





section \<open>The extractor's contract\<close>

text \<open>
  The words of the specification for the extractor, to compare \<open>extract_data\<close> with:
  the lines a block contributes, the blocks of an index document (the top-level insights,
  then the insights of every video), and the first occurrences of a sequence.
\<close>

definition item_line :: "string \<Rightarrow> pyval \<Rightarrow> string list" where
  "item_line fld item =
     (case item of
        PDict kvs \<Rightarrow> (case map_of kvs fld of Some (PStr s) \<Rightarrow> if s \<noteq> [] then [s] else [] | _ \<Rightarrow> [])
      | _ \<Rightarrow> [])"

definition block_lines :: "string \<Rightarrow> string \<Rightarrow> pyval \<Rightarrow> string list" where
  "block_lines coll fld block =
     (case block of
        PDict kvs \<Rightarrow> (case map_of kvs coll of
                        Some (PList items) \<Rightarrow> concat (map (item_line fld) items)
                      | _ \<Rightarrow> [])
      | _ \<Rightarrow> [])"

definition insights_of :: "pyval \<Rightarrow> pyval list" where
  "insights_of v =
     (case v of
        PDict kvs \<Rightarrow> (case map_of kvs ''insights'' of Some block \<Rightarrow> [block] | None \<Rightarrow> [])
      | _ \<Rightarrow> [])"

definition insight_blocks :: "pyval \<Rightarrow> pyval list" where
  "insight_blocks vi_json =
     insights_of vi_json @
     (case vi_json of
        PDict kvs \<Rightarrow> (case map_of kvs ''videos'' of
                        Some (PList vs) \<Rightarrow> concat (map insights_of vs)
                      | _ \<Rightarrow> [])
      | _ \<Rightarrow> [])"

definition harvest :: "string \<Rightarrow> string \<Rightarrow> pyval \<Rightarrow> string list" where
  "harvest coll fld vi_json = concat (map (block_lines coll fld) (insight_blocks vi_json))"

definition first_occurrences :: "'a list \<Rightarrow> 'a list" where
  "first_occurrences xs = [xs ! i. i \<leftarrow> [0..<length xs], xs ! i \<notin> set (take i xs)]"

definition wf_item :: "string \<Rightarrow> pyval \<Rightarrow> bool" where
  "wf_item fld item =
     (case item of
        PDict kvs \<Rightarrow> (case map_of kvs fld of
                        None \<Rightarrow> True | Some PNone \<Rightarrow> True | Some (PStr s) \<Rightarrow> True | _ \<Rightarrow> False)
      | _ \<Rightarrow> False)"

definition wf_collection :: "string \<Rightarrow> string \<Rightarrow> (string \<times> pyval) list \<Rightarrow> bool" where
  "wf_collection coll fld kvs =
     (case map_of kvs coll of
        None \<Rightarrow> True
      | Some (PList items) \<Rightarrow> list_all (wf_item fld) items
      | _ \<Rightarrow> False)"

definition wf_block :: "pyval \<Rightarrow> bool" where
  "wf_block block =
     (case block of
        PDict kvs \<Rightarrow> wf_collection ''transcript'' ''text'' kvs
                    \<and> wf_collection ''ocr'' ''text'' kvs
                    \<and> wf_collection ''brands'' ''name'' kvs
      | _ \<Rightarrow> False)"

definition wf_video :: "pyval \<Rightarrow> bool" where
  "wf_video v = (case v of PDict kvs \<Rightarrow> list_all wf_block (insights_of v) | _ \<Rightarrow> False)"

definition wf_index :: "pyval \<Rightarrow> bool" where
  "wf_index vi_json =
     (case vi_json of
        PDict kvs \<Rightarrow>
          list_all wf_block (insights_of vi_json)
          \<and> (case map_of kvs ''videos'' of
                None \<Rightarrow> True | Some (PList vs) \<Rightarrow> list_all wf_video vs | _ \<Rightarrow> False)
          \<and> (case map_of kvs ''summarizedInsights'' of
                None \<Rightarrow> True | Some (PDict si) \<Rightarrow> True | _ \<Rightarrow> False)
      | _ \<Rightarrow> False)"

section \<open>The poller's contract\<close>

text \<open>
  The words of the specification for one pass of the polling loop.  \<open>tokens_ok\<close>: both
  tokens are obtained.  \<open>reports c data st\<close>: the pass \<open>c\<close> reads the index document
  \<open>data\<close>, whose state is \<open>st\<close>.  \<open>http_error\<close>: the index request is answered with a
  status other than 200.  \<open>transport_failure c e\<close>: a call of the pass raises \<open>e\<close> before
  any status is read, in the acquisition of a token or in the index request itself.
\<close>

definition tokens_ok :: "check \<Rightarrow> bool" where
  "tokens_ok c =
     ((case chk_token c of Inr token \<Rightarrow> True | Inl e \<Rightarrow> False)
      \<and> (case chk_account c of
            Inr r \<Rightarrow> status_code r = 200
                     \<and> (case resp_json r of Inr (PDict kvs) \<Rightarrow> True | _ \<Rightarrow> False)
          | Inl e \<Rightarrow> False))"

definition reports :: "check \<Rightarrow> pyval \<Rightarrow> pyval \<Rightarrow> bool" where
  "reports c data st =
     (tokens_ok c
      \<and> (case chk_index c of
            Inr r \<Rightarrow> status_code r = 200 \<and> resp_json r = Inr data
          | Inl e \<Rightarrow> False)
      \<and> py_get data ''state'' PNone = Inr st)"

definition http_error :: "check \<Rightarrow> bool" where
  "http_error c =
     (tokens_ok c \<and> (case chk_index c of Inr r \<Rightarrow> status_code r \<noteq> 200 | Inl e \<Rightarrow> False))"

definition terminal :: "pyval \<Rightarrow> bool" where
  "terminal st = (st = PStr ''Processed'' \<or> st = PStr ''Failed'' \<or> st = PStr ''Quarantined'')"

definition check_events :: "event list" where
  "check_events = [GetToken, PostGenerateAccessToken, GetIndex]"

definition transport_failure :: "check \<Rightarrow> exn \<Rightarrow> bool" where
  "transport_failure c e =
     (chk_token c = Inl e
      \<or> ((case chk_token c of Inr token \<Rightarrow> True | Inl e' \<Rightarrow> False)
         \<and> (case chk_account c of
               Inl e' \<Rightarrow> e = e'
             | Inr r \<Rightarrow> status_code r \<noteq> 200
                      \<and> e = Exn Exception
                            (''Failed to get VI account access tokenn : response: ''
                              @ resp_text r)))
      \<or> (tokens_ok c \<and> chk_index c = Inl e))"

section \<open>Event records only grow\<close>

text \<open>A computation extends the trace when it leaves the events recorded before it in place.\<close>

definition extends :: "'a io \<Rightarrow> bool" where
  "extends m = (\<forall>w. \<exists>evs. trace (snd (m w)) = trace w @ evs)"

section \<open>The verdict's contract\<close>

text \<open>The value a decoded JSON object gives a field, or the default when it has none.\<close>

definition dict_get :: "(string \<times> pyval) list \<Rightarrow> string \<Rightarrow> pyval \<Rightarrow> pyval" where
  "dict_get kvs k dflt = (case map_of kvs k of None \<Rightarrow> dflt | Some v \<Rightarrow> v)"





section \<open>Example runs\<close>

text \<open>Concrete worlds, answers and states, on which the properties below are exercised.\<close>

definition w0 :: world where
  "w0 = \<lparr>trace = [], file_exists = False\<rparr>"

definition ok_response :: "pyval \<Rightarrow> response" where
  "ok_response body = \<lparr>status_code = 200, resp_text = ''OK'', resp_json = Inr body\<rparr>"

definition token_response :: response where
  "token_response = ok_response (PDict [(''accessToken'', PStr ''vi-token'')])"

text \<open>A pass of the polling loop in which the indexer answers with the document \<open>data\<close>.\<close>

definition status_check :: "pyval \<Rightarrow> check" where
  "status_check data =
     \<lparr>chk_token = Inr ''arm-token'', chk_account = Inr token_response,
      chk_index = Inr (ok_response data)\<rparr>"

definition text_item :: "string \<Rightarrow> pyval" where
  "text_item s = PDict [(''text'', PStr s)]"

text \<open>
  An index document of a processed video: spoken lines A, B, A at the top level and C, B
  in the per-video insights, with an item whose text is empty.
\<close>

definition example_index :: pyval where
  "example_index =
     PDict [(''state'', PStr ''Processed''),
            (''id'', PStr ''abc123''),
            (''summarizedInsights'', PDict [(''durationText'', PStr ''0:00:30'')]),
            (''insights'',
               PDict [(''transcript'', PList [text_item ''A'', text_item ''B'', text_item ''A'']),
                      (''ocr'', PList [text_item ''SALE'', text_item [], text_item ''SALE''])]),
            (''videos'',
               PList [PDict [(''insights'',
                 PDict [(''transcript'', PList [text_item ''C'', text_item ''B'']),
                        (''ocr'', PList [text_item ''50% off'']),
                        (''brands'', PList [PDict [(''name'', PStr ''Acme'')],
                                            PDict [(''name'', PStr ''Acme'')]])])]])]"

definition example_loads :: "string \<Rightarrow> exn + pyval" where
  \<open>example_loads s =
     (if s = ''{"status": "PASS", "compliance_results": [], "final_report": "ok"}''
      then Inr (PDict [(''status'', PStr ''PASS''), (''compliance_results'', PList []),
                       (''final_report'', PStr ''ok'')])
      else if s = ''{"status": "MAYBE", "final_report": "unclear"}''
      then Inr (PDict [(''status'', PStr ''MAYBE''), (''final_report'', PStr ''unclear'')])
      else Inl (Exn JSONDecodeError ''Expecting value: line 1 column 1 (char 0)''))\<close>

definition example_str :: "pyval \<Rightarrow> string" where
  "example_str v = (case v of PStr s \<Rightarrow> s | _ \<Rightarrow> ''None'')"

text \<open>
  A run in which every service answers well: the video is processed at the third check
  and the model answers with a fenced verdict.
\<close>

definition example_env :: env where
  \<open>example_env =
     \<lparr>service_init = Inr (),
      download = Inr (),
      upload_token = Inr ''arm-token'',
      upload_account = Inr token_response,
      upload_post = Inr (ok_response (PDict [(''id'', PStr ''abc123'')])),
      remove = Inr (),
      checks = [status_check (PDict [(''state'', PStr ''Processing'')]),
                status_check (PDict [(''state'', PStr ''Processing'')]),
                status_check example_index],
      clients_init = Inr (),
      search = Inr [''Rule 1: disclose paid partnerships.''],
      invoke = Inr (fence @ ''json'' @ [CHR 0x0A]
                 @ ''{"status": "PASS", "compliance_results": [], "final_report": "ok"}''
                 @ [CHR 0x0A] @ fence),
      py_str = example_str,
      json_loads = example_loads\<rparr>\<close>

definition youtube_inputs :: state where
  "youtube_inputs =
     [F_video_url \<mapsto> PStr ''https://www.youtube.com/watch?v=gj_QyeHTBiI'',
      F_video_id \<mapsto> PStr ''vid_1a2b3c4d'',
      F_compliance_results \<mapsto> PList [],
      F_errors \<mapsto> PList []]"


text \<open>The state the audit stage receives after the indexing of \<open>vimeo_inputs\<close> failed.\<close>

definition vimeo_indexed :: state where
  "vimeo_indexed =
     [F_video_url \<mapsto> PStr ''https://vimeo.com/76979871'',
      F_video_id \<mapsto> PStr ''vid_1a2b3c4d'',
      F_compliance_results \<mapsto> PList [],
      F_errors \<mapsto> PList [PStr unsupported_msg],
      F_final_status \<mapsto> PStr ''FAIL'',
      F_transcript \<mapsto> PStr [],
      F_ocr_text \<mapsto> PList []]"

definition processing_doc :: pyval where
  "processing_doc = PDict [(''state'', PStr ''Processing''), (''id'', PStr ''abc123'')]"

definition quarantined_doc :: pyval where
  "quarantined_doc = PDict [(''state'', PStr ''Quarantined''), (''id'', PStr ''abc123'')]"

text \<open>A pass in which the credential provider fails, and one answered with status 502.\<close>

definition token_failure :: check where
  "token_failure =
     \<lparr>chk_token = Inl (Exn Exception ''DefaultAzureCredential failed to retrieve a token''),
      chk_account = Inr token_response,
      chk_index = Inr (ok_response processing_doc)\<rparr>"

definition bad_gateway :: check where
  "bad_gateway =
     \<lparr>chk_token = Inr ''arm-token'',
      chk_account = Inr token_response,
      chk_index = Inr \<lparr>status_code = 502, resp_text = ''Bad Gateway'',
                        resp_json = Inl (Exn JSONDecodeError ''Expecting value'')\<rparr>\<rparr>"

text \<open>A reference on another host whose query string names YouTube.\<close>

definition lookalike_inputs :: state where
  "lookalike_inputs =
     [F_video_url \<mapsto> PStr ''https://videos.example.org/watch?src=youtube.com'',
      F_video_id \<mapsto> PStr ''vid_1a2b3c4d'',
      F_compliance_results \<mapsto> PList [],
      F_errors \<mapsto> PList []]"

text \<open>Runs in which the upload is refused, and in which the local file cannot be removed.\<close>

definition server_error :: response where
  "server_error =
     \<lparr>status_code = 500, resp_text = ''Internal Server Error'',
      resp_json = Inl (Exn JSONDecodeError ''Expecting value'')\<rparr>"

definition upload_fails_env :: env where
  "upload_fails_env = example_env\<lparr>upload_post := Inr server_error\<rparr>"

definition remove_fails_env :: env where
  "remove_fails_env =
     example_env\<lparr>remove := Inl (Exn OSError ''[Errno 13] Permission denied'')\<rparr>"

text \<open>The state the audit stage receives after \<open>example_index\<close> has been extracted.\<close>

definition youtube_indexed :: state where
  "youtube_indexed =
     [F_video_url \<mapsto> PStr ''https://www.youtube.com/watch?v=gj_QyeHTBiI'',
      F_video_id \<mapsto> PStr ''vid_1a2b3c4d'',
      F_compliance_results \<mapsto> PList [],
      F_errors \<mapsto> PList [],
      F_transcript \<mapsto> PStr ''A B C'',
      F_ocr_text \<mapsto> PList [PStr ''SALE'', PStr ''50% off''],
      F_detected_brands \<mapsto> PList [PStr ''Acme''],
      F_video_metadata \<mapsto> PDict [(''duration'', PStr ''0:00:30''),
                                   (''platform'', PStr ''youtube''),
                                   (''id'', PStr ''abc123'')]]"

text \<open>A run in which the model answers with a status that is neither PASS nor FAIL.\<close>

definition maybe_env :: env where
  \<open>maybe_env =
     example_env\<lparr>invoke := Inr ''{"status": "MAYBE", "final_report": "unclear"}''\<rparr>\<close>






section \<open>Auxiliary facts\<close>

lemmas io_defs =
  bind_io_def catch_io_def emit_def return_io_def raise_exn_def skip_def lift_def call_def

lemma str_contains_iff:
  "str_contains needle s \<longleftrightarrow> (\<exists>pre post. s = pre @ needle @ post)"
proof (induction s)
  case Nil
  then show ?case by auto
next
  case (Cons c cs)
  have "(\<exists>pre post. c # cs = pre @ needle @ post) \<longleftrightarrow>
        (\<exists>post. c # cs = needle @ post) \<or> (\<exists>pre post. cs = pre @ needle @ post)"
    (is "?L \<longleftrightarrow> ?A \<or> ?B")
  proof
    assume ?L
    then obtain pre post where eq: "c # cs = pre @ needle @ post" by blast
    show "?A \<or> ?B"
    proof (cases pre)
      case Nil
      with eq show ?thesis by auto
    next
      case (Cons p ps)
      with eq have "cs = ps @ needle @ post" by simp
      then show ?thesis by blast
    qed
  next
    assume "?A \<or> ?B"
    then show ?L
    proof
      assume ?A
      then obtain post where "c # cs = [] @ needle @ post" by auto
      then show ?L by blast
    next
      assume ?B
      then obtain pre post where "cs = pre @ needle @ post" by blast
      then have "c # cs = (c # pre) @ needle @ post" by simp
      then show ?L by blast
    qed
  qed
  moreover have "take (length needle) (c # cs) = needle \<longleftrightarrow> (\<exists>post. c # cs = needle @ post)"
    by (metis append_eq_conv_conj append_take_drop_id)
  ultimately show ?case using Cons.IH by simp
qed

subsection \<open>Extraction\<close>

lemma first_occurrences_snoc:
  "first_occurrences (xs @ [x]) = first_occurrences xs @ (if x \<in> set xs then [] else [x])"
proof -
  have A: "map (\<lambda>i. if (xs @ [x]) ! i \<notin> set (take i (xs @ [x])) then [(xs @ [x]) ! i] else [])
             [0..<length xs]
           = map (\<lambda>i. if xs ! i \<notin> set (take i xs) then [xs ! i] else []) [0..<length xs]"
    by (rule map_cong) (auto simp: nth_append)
  have B: "[0..<length (xs @ [x])] = [0..<length xs] @ [length xs]"
    by simp
  show ?thesis
    unfolding first_occurrences_def
    by (simp only: B map_append concat_append A) simp
qed

lemma first_occurrences_Nil [simp]: "first_occurrences [] = []"
  by (simp add: first_occurrences_def)

lemma set_first_occurrences [simp]: "set (first_occurrences xs) = set xs"
  by (induction xs rule: rev_induct) (auto simp: first_occurrences_snoc)

lemma distinct_first_occurrences: "distinct (first_occurrences xs)"
  by (induction xs rule: rev_induct) (auto simp: first_occurrences_snoc)

lemma key_eq_PStr [simp]: "key_eq (PStr a) (PStr b) \<longleftrightarrow> a = b"
  by (simp add: key_eq_def)

lemma list_ex_key_eq: "list_ex (key_eq (PStr x)) (map PStr ks) \<longleftrightarrow> x \<in> set ks"
  by (induction ks) auto

lemma dict_fromkeys_strs:
  "dict_fromkeys (map PStr xs) (map PStr (first_occurrences ys))
   = Inr (map PStr (first_occurrences (ys @ xs)))"
proof (induction xs arbitrary: ys)
  case Nil
  then show ?case by simp
next
  case (Cons x xs)
  have "dict_fromkeys (map PStr (x # xs)) (map PStr (first_occurrences ys))
        = dict_fromkeys (map PStr xs) (map PStr (first_occurrences (ys @ [x])))"
    by (simp add: list_ex_key_eq first_occurrences_snoc)
  with Cons.IH [of "ys @ [x]"] show ?case by simp
qed

lemma dict_fromkeys_first_occurrences:
  "dict_fromkeys (map PStr xs) [] = Inr (map PStr (first_occurrences xs))"
  using dict_fromkeys_strs [of xs "[]"] by simp

lemma str_items_strs: "str_items i (map PStr xs) = Inr xs"
  by (induction xs arbitrary: i) auto

lemma str_join_strs: "str_join sep (PList (map PStr xs)) = Inr (join_strs sep xs)"
  by (simp add: str_join_def str_items_strs)

lemma collect_wf:
  "list_all (wf_item k) items \<Longrightarrow>
   collect k items acc = Inr (acc @ map PStr (concat (map (item_line k) items)))"
proof (induction items arbitrary: acc)
  case Nil
  then show ?case by simp
next
  case (Cons item items)
  from Cons.prems have wf: "wf_item k item" and rest: "list_all (wf_item k) items" by simp_all
  from wf obtain kvs where item: "item = PDict kvs" by (auto simp: wf_item_def split: pyval.splits)
  have step: "collect k (item # items) acc
              = collect k items (acc @ map PStr (item_line k item))"
    using wf by (auto simp: item wf_item_def item_line_def split: option.splits pyval.splits)
  show ?case unfolding step using Cons.IH [OF rest, of "acc @ map PStr (item_line k item)"] by simp
qed

lemma collect_from_wf:
  "wf_collection coll k kvs \<Longrightarrow>
   collect_from (PDict kvs) coll k acc
   = Inr (acc @ map PStr (block_lines coll k (PDict kvs)))"
  using collect_wf [of k _ acc] collect_wf [of k "[]" acc]
  by (auto simp: wf_collection_def collect_from_def block_lines_def split: option.splits pyval.splits)

lemma process_block_wf:
  "wf_block block \<Longrightarrow>
   process_block block (ts, os, bs)
   = Inr (ts @ map PStr (block_lines ''transcript'' ''text'' block),
          os @ map PStr (block_lines ''ocr'' ''text'' block),
          bs @ map PStr (block_lines ''brands'' ''name'' block))"
  by (auto simp: wf_block_def collect_from_wf split: pyval.splits)

lemma process_block_empty:
  "process_block (PDict []) (ts, os, bs) = Inr (ts, os, bs)"
  using process_block_wf [of "PDict []" ts os bs]
  by (simp add: wf_block_def wf_collection_def block_lines_def)

lemma process_insights_wf:
  assumes "v = PDict kvs" and "list_all wf_block (insights_of v)"
  shows "process_insights v (ts, os, bs)
         = Inr (ts @ map PStr (concat (map (block_lines ''transcript'' ''text'') (insights_of v))),
                os @ map PStr (concat (map (block_lines ''ocr'' ''text'') (insights_of v))),
                bs @ map PStr (concat (map (block_lines ''brands'' ''name'') (insights_of v))))"
  using assms
  by (auto simp: process_insights_def insights_of_def process_block_empty process_block_wf
      split: option.splits simp del: process_block.simps)

lemma process_videos_wf:
  "list_all wf_video vs \<Longrightarrow>
   process_videos vs (ts, os, bs)
   = Inr (ts @ map PStr (concat (map (block_lines ''transcript'' ''text'')
                                  (concat (map insights_of vs)))),
          os @ map PStr (concat (map (block_lines ''ocr'' ''text'')
                                  (concat (map insights_of vs)))),
          bs @ map PStr (concat (map (block_lines ''brands'' ''name'')
                                  (concat (map insights_of vs)))))"
proof (induction vs arbitrary: ts os bs)
  case Nil
  then show ?case by simp
next
  case (Cons v vs)
  from Cons.prems have wfv: "wf_video v" and rest: "list_all wf_video vs" by simp_all
  from wfv obtain kvs where v: "v = PDict kvs" and blocks: "list_all wf_block (insights_of v)"
    by (auto simp: wf_video_def split: pyval.splits)
  show ?case
    by (simp add: process_insights_wf [OF v blocks] Cons.IH [OF rest])
qed

lemma first_occurrences_rev_remdups: "first_occurrences xs = rev (remdups (rev xs))"
  by (induction xs rule: rev_induct) (auto simp: first_occurrences_snoc)

subsection \<open>Polling\<close>

lemma tokens_ok_bind:
  assumes "tokens_ok c"
  shows "bind_io (get_access_token (chk_token c)) (\<lambda>arm_token.
         bind_io (get_account_token (chk_account c)) (\<lambda>vi_token. k)) w
         = k (w\<lparr>trace := trace w @ [GetToken, PostGenerateAccessToken]\<rparr>)"
  using assms
  by (auto simp: tokens_ok_def get_access_token_def get_account_token_def io_defs
      split: sum.splits pyval.splits)

lemma poll_report:
  assumes "reports c data st"
  shows "poll vid (c # cs) w =
           (if st = PStr ''Processed''
            then (Returns data, w\<lparr>trace := trace w @ check_events @ [Log INFO]\<rparr>)
            else if st = PStr ''Failed''
            then (Raises (Exn Exception (failed_msg vid)), w\<lparr>trace := trace w @ check_events\<rparr>)
            else if st = PStr ''Quarantined''
            then (Raises (Exn Exception quarantined_msg), w\<lparr>trace := trace w @ check_events\<rparr>)
            else poll vid cs (w\<lparr>trace := trace w @ check_events @ [Log INFO, Sleep 30]\<rparr>))"
proof -
  from assms have ok: "tokens_ok c" by (simp add: reports_def)
  from assms obtain r where r: "chk_index c = Inr r" "status_code r = 200" "resp_json r = Inr data"
    and st: "py_get data ''state'' PNone = Inr st"
    by (auto simp: reports_def split: sum.splits)
  show ?thesis
    apply (simp only: poll.simps tokens_ok_bind [OF ok])
    apply (simp add: r st io_defs check_events_def del: py_get.simps)
    done
qed

lemma poll_http_error:
  assumes "http_error c"
  shows "poll vid (c # cs) w
         = poll vid cs (w\<lparr>trace := trace w @ check_events @ [Log ERROR, Sleep 30]\<rparr>)"
proof -
  from assms have ok: "tokens_ok c" by (simp add: http_error_def)
  from assms obtain r where r: "chk_index c = Inr r" "status_code r \<noteq> 200"
    by (auto simp: http_error_def split: sum.splits)
  show ?thesis
    apply (simp only: poll.simps tokens_ok_bind [OF ok])
    apply (simp add: r io_defs check_events_def)
    done
qed

lemma msgs_differ: "quarantined_msg \<noteq> failed_msg vid"
  by (simp add: quarantined_msg_def failed_msg_def)

lemma status_check_reports:
  "py_get data ''state'' PNone = Inr st \<Longrightarrow> reports (status_check data) data st"
  by (simp add: reports_def status_check_def tokens_ok_def token_response_def ok_response_def)

lemma poll_retries:
  "list_all http_error pre \<Longrightarrow>
   poll vid (pre @ cs) w
   = poll vid cs
       (w\<lparr>trace := trace w @ concat (map (\<lambda>c. check_events @ [Log ERROR, Sleep 30]) pre)\<rparr>)"
proof (induction pre arbitrary: w)
  case Nil
  then show ?case by simp
next
  case (Cons p pre)
  then show ?case
    by (simp add: poll_http_error del: poll.simps)
qed

lemma poll_transport_failure:
  assumes "transport_failure c e"
  shows "fst (poll vid (c # cs) w) = Raises e"
proof -
  consider (token) "chk_token c = Inl e"
    | (account) t where "chk_token c = Inr t" "chk_account c = Inl e"
    | (status) t r where "chk_token c = Inr t" "chk_account c = Inr r" "status_code r \<noteq> 200"
        "e = Exn Exception (''Failed to get VI account access tokenn : response: '' @ resp_text r)"
    | (request) "tokens_ok c" "chk_index c = Inl e"
    using assms by (auto simp: transport_failure_def split: sum.splits)
  then show ?thesis
  proof cases
    case token
    then show ?thesis
      by (simp add: get_access_token_def io_defs)
  next
    case account
    then show ?thesis
      by (simp add: get_access_token_def get_account_token_def io_defs)
  next
    case status
    then show ?thesis
      by (simp add: get_access_token_def get_account_token_def io_defs)
  next
    case request
    show ?thesis
      apply (simp only: poll.simps tokens_ok_bind [OF request(1)])
      apply (simp add: request(2) io_defs)
      done
  qed
qed

subsection \<open>Traces\<close>

named_theorems extends_intros

lemma extendsI: "(\<And>w. \<exists>evs. trace (snd (m w)) = trace w @ evs) \<Longrightarrow> extends m"
  by (simp add: extends_def)

lemma extendsD: "extends m \<Longrightarrow> \<exists>evs. trace (snd (m w)) = trace w @ evs"
  by (simp add: extends_def)

lemma extends_return [extends_intros]: "extends (return_io v)"
  by (simp add: extends_def return_io_def)

lemma extends_raise [extends_intros]: "extends (raise_exn e)"
  by (simp add: extends_def raise_exn_def)

lemma extends_emit [extends_intros]: "extends (emit ev)"
  by (simp add: extends_def emit_def)

lemma extends_skip [extends_intros]: "extends skip"
  by (simp add: skip_def extends_return)

lemma extends_lift [extends_intros]: "extends (lift r)"
  by (cases r) (simp_all add: lift_def extends_return extends_raise)

lemma extends_pending [extends_intros]: "extends (\<lambda>w. (Pending, w))"
  by (simp add: extends_def)

lemma extends_set_file [extends_intros]: "extends (\<lambda>w. (Returns v, w\<lparr>file_exists := b\<rparr>))"
  by (simp add: extends_def)

lemma extends_bind [extends_intros]:
  assumes "extends m" and "\<And>v. extends (f v)"
  shows "extends (bind_io m f)"
proof (rule extendsI)
  fix w
  obtain r w' where m: "m w = (r, w')" by (cases "m w")
  from extendsD [OF assms(1), of w] m obtain evs where w': "trace w' = trace w @ evs" by auto
  show "\<exists>evs. trace (snd (bind_io m f w)) = trace w @ evs"
  proof (cases r)
    case (Returns v)
    from extendsD [OF assms(2), of v w'] obtain evs' where "trace (snd (f v w')) = trace w' @ evs'"
      by auto
    with Returns m w' show ?thesis by (simp add: bind_io_def)
  qed (use m w' in \<open>simp_all add: bind_io_def\<close>)
qed

lemma extends_catch [extends_intros]:
  assumes "extends m" and "\<And>e. extends (h e)"
  shows "extends (catch_io m h)"
proof (rule extendsI)
  fix w
  obtain r w' where m: "m w = (r, w')" by (cases "m w")
  from extendsD [OF assms(1), of w] m obtain evs where w': "trace w' = trace w @ evs" by auto
  show "\<exists>evs. trace (snd (catch_io m h w)) = trace w @ evs"
  proof (cases r)
    case (Raises e)
    from extendsD [OF assms(2), of e w'] obtain evs' where "trace (snd (h e w')) = trace w' @ evs'"
      by auto
    with Raises m w' show ?thesis by (simp add: catch_io_def)
  qed (use m w' in \<open>simp_all add: catch_io_def\<close>)
qed

lemma extends_call [extends_intros]: "extends (call ev answer)"
  unfolding call_def by (intro extends_intros)

lemma extends_if [extends_intros]: "extends a \<Longrightarrow> extends b \<Longrightarrow> extends (if c then a else b)"
  by simp

lemma extends_get_access_token [extends_intros]: "extends (get_access_token t)"
  unfolding get_access_token_def by (intro extends_intros)

lemma extends_get_account_token [extends_intros]: "extends (get_account_token p)"
  unfolding get_account_token_def by (intro extends_intros)

lemma extends_download [extends_intros]: "extends (download_youtube_video d)"
  unfolding download_youtube_video_def by (intro extends_intros)

lemma extends_open_file [extends_intros]: "extends open_file"
  unfolding open_file_def
  by (rule extends_bind) (simp_all add: extends_def emit_def)

lemma extends_upload [extends_intros]: "extends (upload_video a b c)"
  unfolding upload_video_def by (intro extends_intros)

lemma extends_poll [extends_intros]: "extends (poll vid cs)"
proof (induction cs)
  case Nil
  show ?case by (simp add: extends_pending)
next
  case (Cons c cs)
  show ?case
    unfolding poll.simps by (intro extends_intros Cons.IH)
qed

lemma extends_wait [extends_intros]: "extends (wait_for_processing vid cs)"
  unfolding wait_for_processing_def by (intro extends_intros)

lemma extends_cleanup [extends_intros]: "extends (cleanup_local_file rm)"
proof (rule extendsI)
  fix w
  have "extends (bind_io (call RemoveFile rm) (\<lambda>_ w'. (Returns (), w'\<lparr>file_exists := False\<rparr>)))"
    by (intro extends_intros)
  from extendsD [OF this, of w] show "\<exists>evs. trace (snd (cleanup_local_file rm w)) = trace w @ evs"
    by (simp add: cleanup_local_file_def)
qed

lemma extends_extract [extends_intros]: "extends (extract_data v)"
  unfolding extract_data_def by (intro extends_intros)

lemma in_bind:
  assumes "ev \<in> set (trace (snd (m w)))" and "\<And>v. extends (f v)"
  shows "ev \<in> set (trace (snd (bind_io m f w)))"
proof -
  obtain r w' where m: "m w = (r, w')" by (cases "m w")
  show ?thesis
  proof (cases r)
    case (Returns v)
    from extendsD [OF assms(2), of v w'] obtain evs where "trace (snd (f v w')) = trace w' @ evs"
      by auto
    with Returns m assms(1) show ?thesis by (simp add: bind_io_def)
  qed (use m assms(1) in \<open>simp_all add: bind_io_def\<close>)
qed

lemma in_catch:
  assumes "ev \<in> set (trace (snd (m w)))" and "\<And>e. extends (h e)"
  shows "ev \<in> set (trace (snd (catch_io m h w)))"
proof -
  obtain r w' where m: "m w = (r, w')" by (cases "m w")
  show ?thesis
  proof (cases r)
    case (Raises e)
    from extendsD [OF assms(2), of e w'] obtain evs where "trace (snd (h e w')) = trace w' @ evs"
      by auto
    with Raises m assms(1) show ?thesis by (simp add: catch_io_def)
  qed (use m assms(1) in \<open>simp_all add: catch_io_def\<close>)
qed

lemma download_event: "Download \<in> set (trace (snd (download_youtube_video d w)))"
  by (cases d) (simp_all add: download_youtube_video_def io_defs)

subsection \<open>Merging\<close>





subsection \<open>The example run of the indexing stage\<close>




subsection \<open>The indexing stage on a reference it does not accept\<close>

lemma index_rejects:
  assumes "py_contains ''youtube.com'' (state_get state F_video_url PNone) \<noteq> Inr True"
    and "py_contains ''youtu.be'' (state_get state F_video_url PNone) \<noteq> Inr True"
  shows "index_video_node env state w =
           (Returns
              [(F_errors, PList [PStr
                  (case service_init env of
                     Inl e \<Rightarrow> str_exn e
                   | Inr _ \<Rightarrow>
                       (case py_contains ''youtube.com'' (state_get state F_video_url PNone) of
                          Inl e \<Rightarrow> str_exn e
                        | Inr _ \<Rightarrow> unsupported_msg))]),
               (F_final_status, PStr ''FAIL''),
               (F_transcript, PStr []),
               (F_ocr_text, PList [])],
            w\<lparr>trace := trace w @ [Log INFO, CreateService, Log ERROR]\<rparr>)"
proof (cases "state_get state F_video_url PNone")
  case (PStr s)
  with assms show ?thesis
    by (simp add: index_video_node_def io_defs index_failure_def Let_def split: sum.splits)
qed (use assms in \<open>simp_all add: index_video_node_def io_defs index_failure_def Let_def
      split: sum.splits\<close>)

subsection \<open>What the audit stage returns\<close>



lemma call_Returns:
  "call ev a w = (Returns v, w') \<longleftrightarrow> a = Inr v \<and> w' = w\<lparr>trace := trace w @ [ev]\<rparr>"
  by (cases a) (auto simp: io_defs)






subsection \<open>Example runs of the whole graph\<close>





section \<open>Audit stage: no content\<close>

text \<open>
  C6.  When both the transcript and the on-screen text of the state are empty (absent,
  \<^verbatim>\<open>None\<close> or of length zero), the audit stage returns the update that sets
  \<open>final_status\<close> to FAIL and \<open>final_report\<close> to the fixed explanation.  The update has
  no \<open>errors\<close> entry, and the only events of the stage are two log records: no client is
  created, nothing is retrieved and the model is not invoked.
\<close>

theorem audit_no_content:
  assumes "\<not> truthy (state_get state F_transcript (PStr []))"
    and "\<not> truthy (state_get state F_ocr_text (PList []))"
  shows "compliance_audit_node env state w =
           (Returns [(F_final_status, PStr ''FAIL''), (F_final_report, PStr no_content_report)],
            w\<lparr>trace := trace w @ [Log INFO, Log WARNING]\<rparr>)"
  using assms by (simp add: compliance_audit_node_def io_defs)

theorem audit_no_content_witness:
  "\<not> truthy (state_get vimeo_indexed F_transcript (PStr []))
   \<and> \<not> truthy (state_get vimeo_indexed F_ocr_text (PList []))
   \<and> compliance_audit_node example_env vimeo_indexed w0 =
       (Returns [(F_final_status, PStr ''FAIL''), (F_final_report, PStr no_content_report)],
        \<lparr>trace = [Log INFO, Log WARNING], file_exists = False\<rparr>)"
  using audit_no_content [of vimeo_indexed example_env w0]
  by (simp add: vimeo_indexed_def state_get_def w0_def)

section \<open>Indexing stage: unsupported reference\<close>




section \<open>Extractor: harvest and deduplication\<close>

text \<open>
  C7.  For every index document of the indexer's shape (\<open>wf_index\<close>: a dictionary whose
  insights blocks, at the top level and in every video, hold lists of items with a string,
  \<^verbatim>\<open>None\<close> or nothing in the text or name field), the extractor returns the update whose
  transcript is the spoken lines joined by single spaces, and whose on-screen text and
  detected brands are sequences, each taken from the top-level insights followed by the
  insights of every video, an item contributing only if its text or name is non-empty, and
  each reduced to its first occurrences: the element at position \<open>i\<close> stays if and only if
  it does not occur before \<open>i\<close>, with strings compared exactly.  The only event is the
  warning logged when the document has no videos.
\<close>

theorem extract_data_harvest:
  assumes "wf_index vi_json"
  shows "\<exists>metadata logs.
           extract_data vi_json w =
             (Returns
                [(F_transcript,
                    PStr (join_strs '' '' (first_occurrences (harvest ''transcript'' ''text'' vi_json)))),
                 (F_ocr_text, PList (map PStr (first_occurrences (harvest ''ocr'' ''text'' vi_json)))),
                 (F_detected_brands,
                    PList (map PStr (first_occurrences (harvest ''brands'' ''name'' vi_json)))),
                 (F_video_metadata, metadata)],
              w\<lparr>trace := trace w @ logs\<rparr>)
           \<and> set logs \<subseteq> {Log WARNING}"
proof -
  from assms obtain kvs where vi: "vi_json = PDict kvs"
    and top: "list_all wf_block (insights_of vi_json)"
    and vids: "case map_of kvs ''videos'' of
                 None \<Rightarrow> True | Some (PList vs) \<Rightarrow> list_all wf_video vs | _ \<Rightarrow> False"
    and summ: "case map_of kvs ''summarizedInsights'' of
                 None \<Rightarrow> True | Some (PDict si) \<Rightarrow> True | _ \<Rightarrow> False"
    by (auto simp: wf_index_def split: pyval.splits)
  define vs where "vs = (case map_of kvs ''videos'' of Some (PList xs) \<Rightarrow> xs | _ \<Rightarrow> [])"
  have vs_wf: "list_all wf_video vs"
    using vids by (auto simp: vs_def split: option.splits pyval.splits)
  have get_videos: "py_get vi_json ''videos'' (PList []) = Inr (PList vs)"
    using vids by (auto simp: vi vs_def split: option.splits pyval.splits)
  have blocks: "insight_blocks vi_json = insights_of vi_json @ concat (map insights_of vs)"
    using vids by (auto simp: insight_blocks_def vi vs_def split: option.splits pyval.splits)
  have lines: "and_then (process_insights vi_json ([], [], [])) (process_videos vs)
               = Inr (map PStr (harvest ''transcript'' ''text'' vi_json),
                      map PStr (harvest ''ocr'' ''text'' vi_json),
                      map PStr (harvest ''brands'' ''name'' vi_json))"
    by (simp add: process_insights_wf [OF vi top] process_videos_wf [OF vs_wf] harvest_def blocks)
  obtain acc where acc: "process_insights vi_json ([], [], []) = Inr acc"
    by (simp add: process_insights_wf [OF vi top])
  with lines have videos: "process_videos vs acc
               = Inr (map PStr (harvest ''transcript'' ''text'' vi_json),
                      map PStr (harvest ''ocr'' ''text'' vi_json),
                      map PStr (harvest ''brands'' ''name'' vi_json))"
    by simp
  obtain videos0 where get0: "py_get vi_json ''videos'' PNone = Inr videos0"
    by (simp add: vi)
  obtain summarized where gs: "py_get vi_json ''summarizedInsights'' (PDict []) = Inr (PDict summarized)"
    using summ by (auto simp: vi split: option.splits pyval.splits)
  obtain duration where gd: "py_get (PDict summarized) ''durationText'' PNone = Inr duration"
    by simp
  obtain vid where gi: "py_get vi_json ''id'' PNone = Inr vid"
    by (simp add: vi)
  show ?thesis
    unfolding extract_data_def
    apply (simp add: io_defs acc get0 get_videos videos
        dict_fromkeys_first_occurrences str_join_strs gs gd gi
        del: py_get.simps)
    apply (intro conjI impI)
     apply (rule exI [of _ "[Log WARNING]"], simp)
    apply (rule exI [of _ "[]"], simp)
    done
qed

theorem extract_data_harvest_witness:
  "wf_index example_index
   \<and> harvest ''transcript'' ''text'' example_index = [''A'', ''B'', ''A'', ''C'', ''B'']
   \<and> (\<exists>metadata logs.
         extract_data example_index w0 =
           (Returns [(F_transcript, PStr ''A B C''),
                     (F_ocr_text, PList [PStr ''SALE'', PStr ''50% off'']),
                     (F_detected_brands, PList [PStr ''Acme'']),
                     (F_video_metadata, metadata)],
            w0\<lparr>trace := trace w0 @ logs\<rparr>)
         \<and> set logs \<subseteq> {Log WARNING})"
proof -
  have wf: "wf_index example_index"
    by (simp add: wf_index_def example_index_def insights_of_def wf_block_def wf_collection_def
        wf_item_def wf_video_def text_item_def)
  have t: "harvest ''transcript'' ''text'' example_index = [''A'', ''B'', ''A'', ''C'', ''B'']"
    and o: "harvest ''ocr'' ''text'' example_index = [''SALE'', ''SALE'', ''50% off'']"
    and b: "harvest ''brands'' ''name'' example_index = [''Acme'', ''Acme'']"
    by (simp_all add: harvest_def insight_blocks_def insights_of_def example_index_def
        block_lines_def item_line_def text_item_def)
  show ?thesis
    using extract_data_harvest [OF wf, of w0]
    by (simp add: wf t o b first_occurrences_rev_remdups)
qed

section \<open>Poller: terminal states\<close>

text \<open>
  C4.  Let every pass of the polling loop read an index document (\<open>rs\<close> lists the documents
  with their states).  The passes whose state is none of Processed, Failed and Quarantined
  each end with a log record and a wait of 30 seconds, and the next pass follows.  At the
  first pass whose state is terminal the poller returns that very document if the state is
  Processed, raises the failure message if it is Failed and raises the quarantine message,
  which is a different one, if it is Quarantined; nothing is waited for after that pass.
  If no pass is terminal the poller is still polling.  So the poller returns exactly when
  the first terminal state is Processed, after as many checks as there are passes up to
  that one, with one wait between two checks.
\<close>

theorem poll_terminal_states:
  assumes "list_all2 (\<lambda>c (data, st). reports c data st) cs rs"
  shows "wait_for_processing vid cs w =
           (let waits = concat (map (\<lambda>r. check_events @ [Log INFO, Sleep 30])
                                 (takeWhile (\<lambda>(data, st). \<not> terminal st) rs))
            in case dropWhile (\<lambda>(data, st). \<not> terminal st) rs of
                 [] \<Rightarrow> (Pending, w\<lparr>trace := trace w @ Log INFO # waits\<rparr>)
               | (data, st) # rest \<Rightarrow>
                   if st = PStr ''Processed''
                   then (Returns data,
                         w\<lparr>trace := trace w @ Log INFO # waits @ check_events @ [Log INFO]\<rparr>)
                   else if st = PStr ''Failed''
                   then (Raises (Exn Exception (failed_msg vid)),
                         w\<lparr>trace := trace w @ Log INFO # waits @ check_events\<rparr>)
                   else (Raises (Exn Exception quarantined_msg),
                         w\<lparr>trace := trace w @ Log INFO # waits @ check_events\<rparr>))
         \<and> quarantined_msg \<noteq> failed_msg vid"
proof -
  have P: "poll vid cs w =
           (let waits = concat (map (\<lambda>r. check_events @ [Log INFO, Sleep 30])
                                 (takeWhile (\<lambda>(data, st). \<not> terminal st) rs))
            in case dropWhile (\<lambda>(data, st). \<not> terminal st) rs of
                 [] \<Rightarrow> (Pending, w\<lparr>trace := trace w @ waits\<rparr>)
               | (data, st) # rest \<Rightarrow>
                   if st = PStr ''Processed''
                   then (Returns data,
                         w\<lparr>trace := trace w @ waits @ check_events @ [Log INFO]\<rparr>)
                   else if st = PStr ''Failed''
                   then (Raises (Exn Exception (failed_msg vid)),
                         w\<lparr>trace := trace w @ waits @ check_events\<rparr>)
                   else (Raises (Exn Exception quarantined_msg),
                         w\<lparr>trace := trace w @ waits @ check_events\<rparr>))" for w
    using assms
  proof (induction cs rs arbitrary: w rule: list_all2_induct)
    case Nil
    then show ?case by simp
  next
    case (Cons c cs r rs)
    obtain data st where r: "r = (data, st)" by (cases r)
    with Cons.hyps have rep: "reports c data st" by simp
    show ?case
    proof (cases "terminal st")
      case True
      then show ?thesis
        by (auto simp: r poll_report [OF rep] terminal_def simp del: poll.simps)
    next
      case False
      then have step: "poll vid (c # cs) w
                 = poll vid cs (w\<lparr>trace := trace w @ check_events @ [Log INFO, Sleep 30]\<rparr>)"
        by (simp add: poll_report [OF rep] terminal_def del: poll.simps)
      show ?thesis
      proof (cases "dropWhile (\<lambda>(data, st). \<not> terminal st) rs")
        case Nil
        with False show ?thesis
          unfolding step Cons.IH by (simp add: r Let_def del: dropWhile_eq_Nil_conv)
      next
        case (Cons r' rs')
        with False show ?thesis
          unfolding step Cons.IH by (cases r') (simp add: r Let_def)
      qed
    qed
  qed
  have W: "wait_for_processing vid cs w = poll vid cs (w\<lparr>trace := trace w @ [Log INFO]\<rparr>)"
    by (simp add: wait_for_processing_def io_defs)
  show ?thesis
    unfolding W P
    by (cases "dropWhile (\<lambda>(data, st). \<not> terminal st) rs")
      (auto simp: Let_def msgs_differ simp del: dropWhile_eq_Nil_conv)
qed

theorem poll_terminal_states_witness:
  "list_all2 (\<lambda>c (data, st). reports c data st)
     [status_check processing_doc, status_check processing_doc, status_check example_index]
     [(processing_doc, PStr ''Processing''), (processing_doc, PStr ''Processing''),
      (example_index, PStr ''Processed'')]
   \<and> wait_for_processing ''abc123''
       [status_check processing_doc, status_check processing_doc, status_check example_index] w0
     = (Returns example_index,
        \<lparr>trace = [Log INFO,
                  GetToken, PostGenerateAccessToken, GetIndex, Log INFO, Sleep 30,
                  GetToken, PostGenerateAccessToken, GetIndex, Log INFO, Sleep 30,
                  GetToken, PostGenerateAccessToken, GetIndex, Log INFO],
         file_exists = False\<rparr>)
   \<and> list_all2 (\<lambda>c (data, st). reports c data st)
       [status_check quarantined_doc] [(quarantined_doc, PStr ''Quarantined'')]
   \<and> wait_for_processing ''abc123'' [status_check quarantined_doc] w0
     = (Raises (Exn Exception quarantined_msg),
        \<lparr>trace = [Log INFO, GetToken, PostGenerateAccessToken, GetIndex],
         file_exists = False\<rparr>)"
proof -
  have a: "list_all2 (\<lambda>c (data, st). reports c data st)
     [status_check processing_doc, status_check processing_doc, status_check example_index]
     [(processing_doc, PStr ''Processing''), (processing_doc, PStr ''Processing''),
      (example_index, PStr ''Processed'')]"
    by (simp add: status_check_reports processing_doc_def example_index_def)
  have b: "list_all2 (\<lambda>c (data, st). reports c data st)
       [status_check quarantined_doc] [(quarantined_doc, PStr ''Quarantined'')]"
    by (simp add: status_check_reports quarantined_doc_def)
  show ?thesis
    using a b poll_terminal_states [OF a, of "''abc123''" w0]
      poll_terminal_states [OF b, of "''abc123''" w0]
    by (simp add: terminal_def check_events_def w0_def)
qed

section \<open>Poller: transport errors\<close>

text \<open>
  C5, as the specification states it, fails: a transport error in the acquisition of a
  token is not retried.  Here the first pass reads the state Processing and the
  credential provider fails in the second pass; the poller raises the provider's exception.
\<close>

theorem poll_token_failure_raises:
  "fst (wait_for_processing ''abc123'' [status_check processing_doc, token_failure] w0)
   = Raises (Exn Exception ''DefaultAzureCredential failed to retrieve a token'')"
  by (simp add: wait_for_processing_def status_check_def token_failure_def processing_doc_def
      token_response_def ok_response_def get_access_token_def get_account_token_def io_defs
      w0_def)

text \<open>
  C5, amended.  An index request that is answered with a status other than 200 is
  transient: the pass logs an error, waits 30 seconds and the next pass follows, so after
  any number of such passes the poller continues with the remaining ones and has not
  raised.  An exception in the acquisition of a token (from the credential provider, from
  the token request, or the refusal of the token request) or raised by the index request
  itself is not retried: it leaves the poller in the pass in which it occurs.
\<close>

theorem poll_transport_errors:
  assumes "list_all http_error pre" and "transport_failure c e"
  shows "poll vid (pre @ cs) w
         = poll vid cs
             (w\<lparr>trace := trace w @ concat (map (\<lambda>c. check_events @ [Log ERROR, Sleep 30]) pre)\<rparr>)
       \<and> fst (poll vid (pre @ c # cs) w) = Raises e"
  using assms by (simp add: poll_retries poll_transport_failure del: poll.simps)

theorem poll_transport_errors_witness:
  "list_all http_error [bad_gateway]
   \<and> transport_failure token_failure
       (Exn Exception ''DefaultAzureCredential failed to retrieve a token'')
   \<and> poll ''abc123'' [bad_gateway] w0
     = (Pending,
        \<lparr>trace = [GetToken, PostGenerateAccessToken, GetIndex, Log ERROR, Sleep 30],
         file_exists = False\<rparr>)
   \<and> fst (poll ''abc123'' [bad_gateway, token_failure] w0)
     = Raises (Exn Exception ''DefaultAzureCredential failed to retrieve a token'')"
proof -
  have a: "list_all http_error [bad_gateway]"
    by (simp add: http_error_def bad_gateway_def tokens_ok_def token_response_def ok_response_def)
  have b: "transport_failure token_failure
             (Exn Exception ''DefaultAzureCredential failed to retrieve a token'')"
    by (simp add: transport_failure_def token_failure_def)
  show ?thesis
    using a b poll_transport_errors [OF a b, of "''abc123''" "[]" w0]
    by (simp add: check_events_def w0_def del: poll.simps(2))
qed

section \<open>Indexing stage: which references are supported\<close>

lemma index_supported:
  assumes "state F_video_url = Some (PStr url)" and "service_init env = Inr ()"
    and "str_contains ''youtube.com'' url \<or> str_contains ''youtu.be'' url"
  shows "Download \<in> set (trace (snd (index_video_node env state w)))"
proof -
  define K where "K = (\<lambda>local_path :: unit.
         bind_io (upload_video (upload_token env) (upload_account env) (upload_post env))
           (\<lambda>azure_video_id.
         bind_io (emit (Log INFO)) (\<lambda>_.
         bind_io (cleanup_local_file (remove env)) (\<lambda>_.
         bind_io (wait_for_processing (py_str env azure_video_id) (checks env))
           (\<lambda>raw_insights.
         bind_io (extract_data raw_insights) (\<lambda>clean_data.
         bind_io (emit (Log INFO)) (\<lambda>_.
         return_io clean_data)))))))"
  define H where "H = (\<lambda>e. bind_io (emit (Log ERROR)) (\<lambda>_. return_io (index_failure e)))"
  have K: "extends (K v)" for v
    unfolding K_def by (intro extends_intros)
  have H: "extends (H e)" for e
    unfolding H_def by (intro extends_intros)
  have eq: "index_video_node env state w
        = catch_io (bind_io (download_youtube_video (download env)) K) H
            (w\<lparr>trace := trace w @ [Log INFO, CreateService]\<rparr>)"
    using assms
    by (auto simp: index_video_node_def state_get_def K_def H_def Let_def
           bind_io_def catch_io_def emit_def return_io_def lift_def call_def)
  show ?thesis
    unfolding eq
    by (intro in_catch in_bind download_event K H)
qed

text \<open>
  C10.  For a state whose video reference is a string, once the service object has been
  constructed, the indexing stage goes on to the download if and only if \<^verbatim>\<open>youtube.com\<close>
  or \<^verbatim>\<open>youtu.be\<close> occurs somewhere in the reference as a substring.  The test looks at
  the text of the reference, not at its host: a reference on another host that carries
  one of the two strings in its path or query is downloaded.
\<close>

theorem index_supported_iff_substring:
  assumes "state F_video_url = Some (PStr url)" and "service_init env = Inr ()"
    and "Download \<notin> set (trace w)"
  shows "Download \<in> set (trace (snd (index_video_node env state w)))
         \<longleftrightarrow> (\<exists>pre post. url = pre @ ''youtube.com'' @ post)
              \<or> (\<exists>pre post. url = pre @ ''youtu.be'' @ post)"
proof (cases "str_contains ''youtube.com'' url \<or> str_contains ''youtu.be'' url")
  case True
  with assms(1,2) have "Download \<in> set (trace (snd (index_video_node env state w)))"
    by (rule index_supported)
  with True show ?thesis
    by (simp add: str_contains_iff)
next
  case False
  with assms have "index_video_node env state w =
           (Returns (index_failure (Exn ValueError unsupported_msg)),
            w\<lparr>trace := trace w @ [Log INFO, CreateService, Log ERROR]\<rparr>)"
    using index_rejects [of state env w]
    by (simp add: state_get_def index_failure_def)
  with False assms(3) show ?thesis
    by (simp add: str_contains_iff)
qed

theorem index_supported_iff_substring_witness:
  "lookalike_inputs F_video_url = Some (PStr ''https://videos.example.org/watch?src=youtube.com'')
   \<and> service_init example_env = Inr ()
   \<and> Download \<notin> set (trace w0)
   \<and> Download \<in> set (trace (snd (index_video_node example_env lookalike_inputs w0)))"
proof -
  have url: "lookalike_inputs F_video_url
             = Some (PStr ''https://videos.example.org/watch?src=youtube.com'')"
    by (simp add: lookalike_inputs_def)
  have init: "service_init example_env = Inr ()"
    by (simp add: example_env_def)
  have fresh: "Download \<notin> set (trace w0)"
    by (simp add: w0_def)
  have "''https://videos.example.org/watch?src=youtube.com''
        = ''https://videos.example.org/watch?src='' @ ''youtube.com'' @ []"
    by simp
  then have "\<exists>pre post. ''https://videos.example.org/watch?src=youtube.com''
                = pre @ ''youtube.com'' @ post"
    by blast
  with url init fresh
    index_supported_iff_substring
      [of lookalike_inputs "''https://videos.example.org/watch?src=youtube.com''" example_env w0]
  show ?thesis by blast
qed

section \<open>Indexing stage: the local media file\<close>

text \<open>
  C9 does not hold of the code.  The download succeeds and the indexer refuses the upload
  with status 500: the stage returns the failure update, the removal of the local file is
  never attempted and the file is still there when the stage has returned.
\<close>

theorem index_upload_failure_keeps_file:
  "index_video_node upload_fails_env youtube_inputs w0 =
     (Returns
        [(F_errors,
            PList [PStr ''Failed to upload video on Azure Video Indexer : Internal Server Error'']),
         (F_final_status, PStr ''FAIL''),
         (F_transcript, PStr []),
         (F_ocr_text, PList [])],
      \<lparr>trace = [Log INFO, CreateService, Log INFO, Download, Log INFO,
                GetToken, PostGenerateAccessToken, Log INFO, OpenFile, PostVideo, Log ERROR],
       file_exists = True\<rparr>)"
  by (simp add: index_video_node_def upload_fails_env_def example_env_def youtube_inputs_def
      state_get_def w0_def download_youtube_video_def upload_video_def get_access_token_def
      get_account_token_def open_file_def token_response_def ok_response_def server_error_def
      index_failure_def io_defs Let_def)

text \<open>
  Nor is a failure of the removal kept from the stage: the upload has succeeded, the
  removal raises, and the stage returns the failure update with the exception's message.
\<close>

lemma index_remove_failure_fails_stage:
  "index_video_node remove_fails_env youtube_inputs w0 =
     (Returns
        [(F_errors, PList [PStr ''[Errno 13] Permission denied'']),
         (F_final_status, PStr ''FAIL''),
         (F_transcript, PStr []),
         (F_ocr_text, PList [])],
      \<lparr>trace = [Log INFO, CreateService, Log INFO, Download, Log INFO,
                GetToken, PostGenerateAccessToken, Log INFO, OpenFile, PostVideo, Log INFO,
                RemoveFile, Log ERROR],
       file_exists = True\<rparr>)"
  by (simp add: index_video_node_def remove_fails_env_def example_env_def youtube_inputs_def
      state_get_def w0_def download_youtube_video_def upload_video_def get_access_token_def
      get_account_token_def open_file_def token_response_def ok_response_def
      cleanup_local_file_def index_failure_def io_defs Let_def)

section \<open>The state accumulator\<close>



section \<open>Audit stage: reading the verdict\<close>

text \<open>
  C1, as the specification states it, fails: a status that the object carries is passed
  on as it is, whatever it says.  Here the model answers with a JSON object whose status is
  \<^verbatim>\<open>MAYBE\<close>; the update of the stage has \<open>final_status\<close> \<^verbatim>\<open>MAYBE\<close>, not FAIL.
\<close>

theorem audit_status_verbatim:
  \<open>json_loads maybe_env (json_text ''{"status": "MAYBE", "final_report": "unclear"}'')
     = Inr (PDict [(''status'', PStr ''MAYBE''), (''final_report'', PStr ''unclear'')])
   \<and> compliance_audit_node maybe_env youtube_indexed w0
     = (Returns [(F_compliance_results, PList []),
                 (F_final_status, PStr ''MAYBE''),
                 (F_final_report, PStr ''unclear'')],
        \<lparr>trace = [Log INFO, CreateClients, SimilaritySearch, InvokeModel],
         file_exists = False\<rparr>)
   \<and> PStr ''MAYBE'' \<noteq> PStr ''FAIL''\<close>
  by (simp add: json_text_def json_match_def fence_def strip_def is_space_def maybe_env_def example_env_def example_loads_def compliance_audit_node_def
      youtube_indexed_def state_get_def w0_def read_verdict_def str_join_def io_defs Let_def)

text \<open>
  C1, amended.  When the stage reaches the model and the model's answer, reduced to its
  JSON text, decodes to a JSON object, the update of the stage gives \<open>final_status\<close> the
  value of the object's \<^verbatim>\<open>status\<close> field as it stands, or FAIL when the object has no
  such field; \<open>final_report\<close> the value of \<^verbatim>\<open>final_report\<close>, or the fixed placeholder
  when absent; and \<open>compliance_results\<close> the value of \<^verbatim>\<open>compliance_results\<close>, or the
  empty sequence when absent.  So \<open>final_status\<close> is PASS only if the object's status
  field is PASS.
\<close>

theorem audit_verdict_mapping:
  assumes "truthy (state_get state F_transcript (PStr []))
           \<or> truthy (state_get state F_ocr_text (PList []))"
    and "clients_init env = Inr ()"
    and "py_slice_to 500 (state_get state F_transcript (PStr [])) = Inr transcript_500"
    and "and_then (py_slice_to 200 (state_get state F_ocr_text (PList []))) (str_join '' '')
         = Inr ocr_200"
    and "search env = Inr docs"
    and "invoke env = Inr response_content"
    and "json_loads env (json_text response_content) = Inr (PDict kvs)"
  shows "compliance_audit_node env state w =
           (Returns
              [(F_compliance_results, dict_get kvs ''compliance_results'' (PList [])),
               (F_final_status, dict_get kvs ''status'' (PStr ''FAIL'')),
               (F_final_report, dict_get kvs ''final_report'' (PStr ''No Report Generated.''))],
            w\<lparr>trace := trace w @ [Log INFO, CreateClients, SimilaritySearch, InvokeModel]\<rparr>)
         \<and> (dict_get kvs ''status'' (PStr ''FAIL'') = PStr ''PASS''
              \<longleftrightarrow> map_of kvs ''status'' = Some (PStr ''PASS''))"
proof -
  have verdict: "read_verdict env response_content =
          Inr [(F_compliance_results, dict_get kvs ''compliance_results'' (PList [])),
               (F_final_status, dict_get kvs ''status'' (PStr ''FAIL'')),
               (F_final_report, dict_get kvs ''final_report'' (PStr ''No Report Generated.''))]"
    using assms(7) by (simp add: read_verdict_def dict_get_def)
  have node: "compliance_audit_node env state w =
           (Returns
              [(F_compliance_results, dict_get kvs ''compliance_results'' (PList [])),
               (F_final_status, dict_get kvs ''status'' (PStr ''FAIL'')),
               (F_final_report, dict_get kvs ''final_report'' (PStr ''No Report Generated.''))],
            w\<lparr>trace := trace w @ [Log INFO, CreateClients, SimilaritySearch, InvokeModel]\<rparr>)"
    using assms(1-6)
    by (auto simp: compliance_audit_node_def verdict io_defs Let_def)
  have "dict_get kvs ''status'' (PStr ''FAIL'') = PStr ''PASS''
        \<longleftrightarrow> map_of kvs ''status'' = Some (PStr ''PASS'')"
    by (simp add: dict_get_def split: option.splits)
  with node show ?thesis by simp
qed

theorem audit_verdict_mapping_witness:
  \<open>(truthy (state_get youtube_indexed F_transcript (PStr []))
     \<or> truthy (state_get youtube_indexed F_ocr_text (PList [])))
   \<and> clients_init example_env = Inr ()
   \<and> py_slice_to 500 (state_get youtube_indexed F_transcript (PStr [])) = Inr (PStr ''A B C'')
   \<and> and_then (py_slice_to 200 (state_get youtube_indexed F_ocr_text (PList [])))
        (str_join '' '') = Inr ''SALE 50% off''
   \<and> search example_env = Inr [''Rule 1: disclose paid partnerships.'']
   \<and> json_loads example_env
        (json_text (fence @ ''json'' @ [CHR 0x0A]
           @ ''{"status": "PASS", "compliance_results": [], "final_report": "ok"}''
           @ [CHR 0x0A] @ fence))
      = Inr (PDict [(''status'', PStr ''PASS''), (''compliance_results'', PList []),
                    (''final_report'', PStr ''ok'')])
   \<and> compliance_audit_node example_env youtube_indexed w0 =
       (Returns [(F_compliance_results, PList []),
                 (F_final_status, PStr ''PASS''),
                 (F_final_report, PStr ''ok'')],
        \<lparr>trace = [Log INFO, CreateClients, SimilaritySearch, InvokeModel],
         file_exists = False\<rparr>)\<close>
proof -
  have a: "truthy (state_get youtube_indexed F_transcript (PStr []))
     \<or> truthy (state_get youtube_indexed F_ocr_text (PList []))"
    by (simp add: youtube_indexed_def state_get_def)
  have b: "clients_init example_env = Inr ()"
    by (simp add: example_env_def)
  have c: "py_slice_to 500 (state_get youtube_indexed F_transcript (PStr [])) = Inr (PStr ''A B C'')"
    by (simp add: youtube_indexed_def state_get_def)
  have d: "and_then (py_slice_to 200 (state_get youtube_indexed F_ocr_text (PList [])))
        (str_join '' '') = Inr ''SALE 50% off''"
    by (simp add: youtube_indexed_def state_get_def str_join_def)
  have e: "search example_env = Inr [''Rule 1: disclose paid partnerships.'']"
    by (simp add: example_env_def)
  have f: \<open>invoke example_env = Inr (fence @ ''json'' @ [CHR 0x0A]
           @ ''{"status": "PASS", "compliance_results": [], "final_report": "ok"}''
           @ [CHR 0x0A] @ fence)\<close>
    by (simp add: example_env_def)
  have g: \<open>json_loads example_env
        (json_text (fence @ ''json'' @ [CHR 0x0A]
           @ ''{"status": "PASS", "compliance_results": [], "final_report": "ok"}''
           @ [CHR 0x0A] @ fence))
      = Inr (PDict [(''status'', PStr ''PASS''), (''compliance_results'', PList []),
                    (''final_report'', PStr ''ok'')])\<close>
    by (simp add: example_env_def example_loads_def json_text_def json_match_def fence_def
        strip_def is_space_def)
  have node: "compliance_audit_node example_env youtube_indexed w0 =
       (Returns [(F_compliance_results, PList []),
                 (F_final_status, PStr ''PASS''),
                 (F_final_report, PStr ''ok'')],
        \<lparr>trace = [Log INFO, CreateClients, SimilaritySearch, InvokeModel],
         file_exists = False\<rparr>)"
    using audit_verdict_mapping [OF a b c d e f g, of w0]
    by (simp add: dict_get_def w0_def)
  show ?thesis
    by (intro conjI; fact a b c d e g node)
qed

section \<open>The graph: the final status\<close>




end
